theory Spec2Isabelle
  imports Main
begin

section \<open>Text helpers of the Python runtime\<close>

text \<open>
  The server decodes every chunk it receives as UTF-8 (\<open>.decode('utf-8')\<close>) and works
  on \<open>str\<close> values. On a chunk of ASCII bytes decoding is the identity and one byte is
  one unit of text; on other chunks it raises \<open>UnicodeDecodeError\<close> or gives text beyond
  ASCII, for which case mapping, blanks and digits follow the Unicode tables. The
  definitions below follow the code on ASCII bytes, where a text is a \<open>string\<close>, and
  every property that depends on what a connection delivers is stated for a stream of
  ASCII bytes.
\<close>

fun is_ascii :: "string \<Rightarrow> bool" where
  "is_ascii [] = True"
| "is_ascii (c # cs) = ((of_char c :: nat) < 128 \<and> is_ascii cs)"

definition CRLF :: string where
  "CRLF = [CHR 0x0D, CHR 0x0A]"

text \<open>\<open>s.startswith(p)\<close>.\<close>

fun startswith :: "string \<Rightarrow> string \<Rightarrow> bool" where
  "startswith s [] = True"
| "startswith [] (p # ps) = False"
| "startswith (c # cs) (p # ps) = (c = p \<and> startswith cs ps)"

text \<open>Every exception the modelled code can raise or name in an \<open>except\<close> clause.\<close>

datatype error =
    Substring_not_found
  | Index_error
  | Request_line_missing
  | Malformed_request_line string
  | Malformed_header_line string
  | Unpack_error
  | Invalid_literal string
  | Exceeds_digit_limit
  | Os_error string

text \<open>The class test of \<open>except ValueError\<close>.\<close>

fun is_ValueError :: "error \<Rightarrow> bool" where
  "is_ValueError Index_error = False"
| "is_ValueError (Os_error p) = False"
| "is_ValueError e = True"

text \<open>The class test of \<open>except IndexError\<close>.\<close>

fun is_IndexError :: "error \<Rightarrow> bool" where
  "is_IndexError Index_error = True"
| "is_IndexError e = False"

text \<open>
  \<open>s.index(sub)\<close>: the lowest position at which \<open>sub\<close> occurs in \<open>s\<close>; it raises
  \<open>ValueError("substring not found")\<close> when there is none.
\<close>

fun find_str :: "string \<Rightarrow> string \<Rightarrow> nat option" where
  "find_str [] sub = (if sub = [] then Some 0 else None)"
| "find_str (c # cs) sub =
     (if startswith (c # cs) sub then Some 0 else map_option Suc (find_str cs sub))"

definition index_str :: "string \<Rightarrow> string \<Rightarrow> error + nat" where
  "index_str s sub = (case find_str s sub of None \<Rightarrow> Inl Substring_not_found | Some i \<Rightarrow> Inr i)"

text \<open>The slices \<open>s[:n]\<close> and \<open>s[n:]\<close>; a negative \<open>n\<close> counts from the end.\<close>

definition slice_to :: "string \<Rightarrow> int \<Rightarrow> string" where
  "slice_to s n = (if 0 \<le> n then take (nat n) s else take (nat (int (length s) + n)) s)"

definition slice_from :: "string \<Rightarrow> int \<Rightarrow> string" where
  "slice_from s n = (if 0 \<le> n then drop (nat n) s else drop (nat (int (length s) + n)) s)"

section \<open>The connection\<close>

text \<open>
  A connection holds the bytes the peer has sent and that no \<open>recv\<close> has returned yet
  (\<open>stream\<close>); the peer sends nothing more after them. How the network cuts the bytes
  into deliveries is the list \<open>frags\<close>: an entry \<open>f\<close> lets the next \<open>recv\<close> see
  \<open>f + 1\<close> bytes at most, and once the list is used up everything left has arrived.
  \<open>recvs\<close> counts the calls of \<open>recv\<close>.
\<close>

record sock =
  stream :: string
  frags :: "nat list"
  recvs :: nat

text \<open>
  \<open>sock.recv(bufsize)\<close> returns what has arrived, \<open>bufsize\<close> bytes at most, and the
  empty text at end of stream.
\<close>

definition recv :: "sock \<Rightarrow> nat \<Rightarrow> string \<times> sock" where
  "recv s bufsize =
     (let k = min bufsize (case frags s of [] \<Rightarrow> length (stream s) | f # fs \<Rightarrow> Suc f)
      in (take k (stream s),
          s\<lparr>stream := drop k (stream s), frags := tl (frags s), recvs := Suc (recvs s)\<rparr>))"

section \<open>BodyReader\<close>

record body_reader =
  b_sock :: sock
  b_buff :: string
  b_bufsize :: nat

text \<open>The constructor, with its default \<open>bufsize\<close>.\<close>

definition BodyReader :: "sock \<Rightarrow> string \<Rightarrow> body_reader" where
  "BodyReader s buff = \<lparr>b_sock = s, b_buff = buff, b_bufsize = 16384\<rparr>"

text \<open>
  The \<open>while\<close> loop of \<open>read\<close>: fill the buffer until it holds \<open>n\<close> units or a read is
  empty. The chunk is taken as its own decoding, which it is for ASCII bytes.
\<close>

function read_fill :: "int \<Rightarrow> body_reader \<Rightarrow> body_reader" where
  "read_fill n r =
     (if int (length (b_buff r)) < n
      then (let d = recv (b_sock r) (b_bufsize r)
            in if fst d = [] then r\<lparr>b_sock := snd d\<rparr>
               else read_fill n (r\<lparr>b_sock := snd d, b_buff := b_buff r @ fst d\<rparr>))
      else r)"
  by pat_completeness auto
termination
  by (relation "measure (\<lambda>(n, r). length (stream (b_sock r)))") (auto simp: recv_def Let_def split: list.splits)

declare read_fill.simps [simp del]

definition read :: "body_reader \<Rightarrow> int \<Rightarrow> string \<times> body_reader" where
  "read r n =
     (let r' = read_fill n r
      in (slice_to (b_buff r') n, r'\<lparr>b_buff := slice_from (b_buff r') n\<rparr>))"

section \<open>The line stream reader\<close>

text \<open>What a call of \<open>next\<close> on the generator gives: a line, the value of its \<open>return\<close>
  (carried by \<open>StopIteration\<close>), or an exception that leaves the generator.\<close>

datatype outcome = Yield string | Return string | Raise error

text \<open>
  The body of \<open>iter_lines\<close>, run until it yields, returns or raises. \<open>inner\<close> tells where
  it runs from: the head of the outer loop (a generator not started yet, or the
  \<open>break\<close> of the handler), or the head of the inner loop (a generator resumed after
  \<open>yield\<close>). The result carries the buffer and the connection as the generator leaves
  them. The chunk is taken as its own decoding, which it is for ASCII bytes.
\<close>

function iter_lines_run :: "bool \<Rightarrow> string \<Rightarrow> sock \<Rightarrow> nat \<Rightarrow> outcome \<times> string \<times> sock" where
  "iter_lines_run inner buff s bufsize =
     (if inner
      then (case index_str buff CRLF of
              Inl e \<Rightarrow>
                if is_IndexError e then iter_lines_run False buff s bufsize
                else (Raise e, buff, s)
            | Inr i \<Rightarrow>
                (let line = take i buff; buff' = drop (i + 2) buff
                 in if line = [] then (Return buff', buff', s) else (Yield line, buff', s)))
      else (let d = recv s bufsize
            in if fst d = [] then (Return [], buff, snd d)
               else iter_lines_run True (buff @ fst d) (snd d) bufsize))"
  by pat_completeness auto
termination
proof (relation "measure (\<lambda>(inner, buff, s, bufsize).
          2 * length (stream s) + (if inner then 1 else 0))")
  fix inner :: bool and buff :: string and s :: sock and bufsize :: nat and d
  assume "\<not> inner" and d: "d = recv s bufsize" and ne: "fst d \<noteq> []"
  from d ne have "length (stream (snd d)) < length (stream s)"
    by (auto simp: recv_def Let_def split: list.splits)
  then show "((True, buff @ fst d, snd d, bufsize), (inner, buff, s, bufsize))
      \<in> measure (\<lambda>(inner, buff, s, bufsize). 2 * length (stream s) + (if inner then 1 else 0))"
    by simp
qed auto

declare iter_lines_run.simps [simp del]

text \<open>The generator object: its frame, suspended before the first statement or at \<open>yield\<close>.\<close>

record lines_gen =
  g_sock :: sock
  g_bufsize :: nat
  g_buff :: string
  g_started :: bool

definition iter_lines :: "sock \<Rightarrow> lines_gen" where
  "iter_lines s = \<lparr>g_sock = s, g_bufsize = 16384, g_buff = [], g_started = False\<rparr>"

text \<open>\<open>next(lines)\<close> on a generator that has not returned or raised yet.\<close>

definition next_line :: "lines_gen \<Rightarrow> outcome \<times> lines_gen" where
  "next_line g =
     (case iter_lines_run (g_started g) (g_buff g) (g_sock g) (g_bufsize g) of
        (out, buff, s) \<Rightarrow> (out, g\<lparr>g_sock := s, g_buff := buff, g_started := True\<rparr>))"

section \<open>Headers\<close>

text \<open>ASCII case mapping, as \<open>str.upper\<close> and \<open>str.lower\<close> do on ASCII text.\<close>

definition upper_char :: "char \<Rightarrow> char" where
  "upper_char c = (let k = (of_char c :: nat) in if 97 \<le> k \<and> k \<le> 122 then char_of (k - 32) else c)"

definition lower_char :: "char \<Rightarrow> char" where
  "lower_char c = (let k = (of_char c :: nat) in if 65 \<le> k \<and> k \<le> 90 then char_of (k + 32) else c)"

definition upper :: "string \<Rightarrow> string" where
  "upper s = map upper_char s"

definition lower :: "string \<Rightarrow> string" where
  "lower s = map lower_char s"

text \<open>
  Modelled from the spec: the module \<open>headers\<close> (class \<open>Headers\<close>) is imported by
  \<open>request.py\<close> and is not among the sources. The specification gives its contract:
  a multimap from names to values, kept in insertion order; \<open>add(name, value)\<close> keeps
  duplicates and never fails; \<open>get(name, default)\<close> compares names without regard to
  case and returns the first match, or the default.
\<close>

type_synonym headers = "(string \<times> string) list"

definition Headers :: headers where
  "Headers = []"

definition headers_add :: "headers \<Rightarrow> string \<Rightarrow> string \<Rightarrow> headers" where
  "headers_add h name v = h @ [(name, v)]"

definition headers_get :: "headers \<Rightarrow> string \<Rightarrow> string \<Rightarrow> string" where
  "headers_get h name dflt =
     (case find (\<lambda>kv. lower (fst kv) = lower name) h of None \<Rightarrow> dflt | Some kv \<Rightarrow> snd kv)"

section \<open>The request parser\<close>

text \<open>\<open>s.split(sep)\<close> for a separator of one character: \<open>k\<close> separators give \<open>k + 1\<close> tokens.\<close>

fun split_str :: "string \<Rightarrow> char \<Rightarrow> string list" where
  "split_str [] sep = [[]]"
| "split_str (c # cs) sep =
     (if c = sep then [] # split_str cs sep
      else (case split_str cs sep of [] \<Rightarrow> [[c]] | t # ts \<Rightarrow> (c # t) # ts))"

text \<open>\<open>s.partition(sep)\<close> for a separator of one character.\<close>

definition partition_str :: "string \<Rightarrow> char \<Rightarrow> string \<times> string \<times> string" where
  "partition_str s sep =
     (let rest = dropWhile (\<lambda>c. c \<noteq> sep) s
      in if rest = [] then (s, [], []) else (takeWhile (\<lambda>c. c \<noteq> sep) s, [sep], tl rest))"

text \<open>\<open>str.isspace\<close> on one ASCII character, and \<open>s.lstrip()\<close>.\<close>

definition is_space :: "char \<Rightarrow> bool" where
  "is_space c = (let k = (of_char c :: nat) in (9 \<le> k \<and> k \<le> 13) \<or> (28 \<le> k \<and> k \<le> 32))"

definition lstrip :: "string \<Rightarrow> string" where
  "lstrip s = dropWhile is_space s"

text \<open>The unpacking \<open>a, b, c = xs\<close>, a \<open>ValueError\<close> unless \<open>xs\<close> has three elements.\<close>

fun unpack3 :: "string list \<Rightarrow> error + (string \<times> string \<times> string)" where
  "unpack3 [a, b, c] = Inr (a, b, c)"
| "unpack3 xs = Inl Unpack_error"

record request =
  http_method :: string
  path :: string
  headers :: headers
  body :: body_reader

text \<open>The body of the \<open>try\<close> that handles one header line.\<close>

definition add_header_line :: "headers \<Rightarrow> string \<Rightarrow> error + headers" where
  "add_header_line h line =
     (case partition_str line (CHR '':'') of
        (name, sep, v) \<Rightarrow> Inr (headers_add h name (lstrip v)))"

text \<open>
  Each line the generator yields takes its terminator out of what is buffered or still
  to arrive, which is what makes the header loop end.
\<close>

lemma recv_concat: "fst (recv s b) @ stream (snd (recv s b)) = stream s"
  by (simp add: recv_def Let_def)

lemma startswith_length: "startswith s p \<Longrightarrow> length p \<le> length s"
  by (induction s p rule: startswith.induct) auto

lemma find_str_bound: "find_str s sub = Some i \<Longrightarrow> i + length sub \<le> length s"
proof (induction s arbitrary: i)
  case Nil
  then show ?case by (simp split: if_splits)
next
  case (Cons c cs)
  show ?case
  proof (cases "startswith (c # cs) sub")
    case True
    with Cons.prems startswith_length [OF True] show ?thesis by simp
  next
    case False
    with Cons.prems obtain j where "find_str cs sub = Some j" and "i = Suc j" by auto
    with Cons.IH [of j] show ?thesis by simp
  qed
qed

lemma iter_lines_run_yield:
  "iter_lines_run inner buff s b = (Yield l, buff', s') \<Longrightarrow>
   length buff' + length (stream s') < length buff + length (stream s)"
proof (induction inner buff s b rule: iter_lines_run.induct)
  case (1 inner buff s bufsize)
  show ?case
  proof (cases inner)
    case True
    show ?thesis
    proof (cases "index_str buff CRLF")
      case (Inl e)
      show ?thesis
      proof (cases "is_IndexError e")
        case False
        with True Inl "1.prems" show ?thesis by (simp add: iter_lines_run.simps)
      next
        case ie: True
        from True Inl ie "1.prems"
        have "iter_lines_run False buff s bufsize = (Yield l, buff', s')"
          by (subst (asm) iter_lines_run.simps) simp
        with "1.IH"(1) [OF True Inl ie] show ?thesis .
      qed
    next
      case (Inr i)
      then have "find_str buff CRLF = Some i"
        by (simp add: index_str_def split: option.splits)
      from find_str_bound [OF this] have "i + 2 \<le> length buff" by (simp add: CRLF_def)
      moreover from True Inr "1.prems" have "buff' = drop (i + 2) buff" and "s' = s"
        by (auto simp: iter_lines_run.simps Let_def split: if_splits)
      ultimately show ?thesis by simp
    qed
  next
    case False
    let ?d = "recv s bufsize"
    show ?thesis
    proof (cases "fst ?d = []")
      case True
      with False "1.prems" show ?thesis by (simp add: iter_lines_run.simps Let_def)
    next
      case ne: False
      from False ne "1.prems"
      have "iter_lines_run True (buff @ fst ?d) (snd ?d) bufsize = (Yield l, buff', s')"
        by (subst (asm) iter_lines_run.simps) (simp add: Let_def)
      from "1.IH"(2) [OF False refl ne this] recv_concat [of s bufsize, symmetric]
      show ?thesis by (metis add.assoc length_append)
    qed
  qed
qed

lemma next_line_yield:
  "next_line g = (Yield l, g') \<Longrightarrow>
   length (g_buff g') + length (stream (g_sock g')) < length (g_buff g) + length (stream (g_sock g))"
  by (auto simp: next_line_def split: prod.splits dest: iter_lines_run_yield)

text \<open>The \<open>while\<close> loop over the header lines of \<open>from_socket\<close>.\<close>

function header_loop :: "lines_gen \<Rightarrow> headers \<Rightarrow> error + (headers \<times> string \<times> lines_gen)" where
  "header_loop g h =
     (case next_line g of
        (Return buff, g') \<Rightarrow> Inr (h, buff, g')
      | (Raise e, g') \<Rightarrow> Inl e
      | (Yield line, g') \<Rightarrow>
          (case add_header_line h line of
             Inl e \<Rightarrow> if is_ValueError e then Inl (Malformed_header_line line) else Inl e
           | Inr h' \<Rightarrow> header_loop g' h'))"
  by pat_completeness auto
termination
  by (relation "measure (\<lambda>(g, h). length (g_buff g) + length (stream (g_sock g)))")
     (auto dest: next_line_yield [OF sym])

declare header_loop.simps [simp del]

definition from_socket :: "sock \<Rightarrow> error + request" where
  "from_socket s =
     (case next_line (iter_lines s) of
        (Return buff, g) \<Rightarrow> Inl Request_line_missing
      | (Raise e, g) \<Rightarrow> Inl e
      | (Yield request_line, g) \<Rightarrow>
          (case unpack3 (split_str request_line (CHR '' '')) of
             Inl e \<Rightarrow>
               if is_ValueError e then Inl (Malformed_request_line request_line) else Inl e
           | Inr (m, p, v) \<Rightarrow>
               (case header_loop g Headers of
                  Inl e \<Rightarrow> Inl e
                | Inr (h, buff, g') \<Rightarrow>
                    Inr \<lparr>http_method = upper m, path = p, headers = h,
                         body = BodyReader (g_sock g') buff\<rparr>)))"

section \<open>The worker\<close>

text \<open>\<open>sub in s\<close> on texts.\<close>

definition contains :: "string \<Rightarrow> string \<Rightarrow> bool" where
  "contains s sub = (find_str s sub \<noteq> None)"

text \<open>
  \<open>int(s)\<close> on an ASCII text: blanks around, one optional sign, then decimal digits,
  where single underscores may stand between two digits; a \<open>ValueError\<close> otherwise.
  The blanks \<open>int\<close> skips in an ASCII text are those of C's \<open>isspace\<close> (tab, line feed,
  vertical tab, form feed, carriage return, space), fewer than \<open>str.isspace\<close> accepts.
  \<open>max_str_digits\<close> is the interpreter's bound on the digits of a converted text
  (\<open>sys.get_int_max_str_digits()\<close>: \<open>4300\<close> by default, \<open>0\<close> for no bound and for
  interpreters that have none); it applies to texts of more than \<open>640\<close> digits and
  raises a \<open>ValueError\<close> as well.
\<close>

definition is_c_space :: "char \<Rightarrow> bool" where
  "is_c_space c = (let k = (of_char c :: nat) in (9 \<le> k \<and> k \<le> 13) \<or> k = 32)"

definition strip_c_space :: "string \<Rightarrow> string" where
  "strip_c_space s = rev (dropWhile is_c_space (rev (dropWhile is_c_space s)))"

definition is_digit :: "char \<Rightarrow> bool" where
  "is_digit c = (let k = (of_char c :: nat) in 48 \<le> k \<and> k \<le> 57)"

definition digit_val :: "char \<Rightarrow> int" where
  "digit_val c = int (of_char c) - 48"

fun digits_int :: "int \<Rightarrow> bool \<Rightarrow> string \<Rightarrow> int option" where
  "digits_int acc prev [] = (if prev then Some acc else None)"
| "digits_int acc prev (c # cs) =
     (if is_digit c then digits_int (10 * acc + digit_val c) True cs
      else if c = CHR ''_'' \<and> prev then digits_int acc False cs
      else None)"

definition int_str :: "nat \<Rightarrow> string \<Rightarrow> error + int" where
  "int_str max_str_digits s =
     (let t = strip_c_space s;
          sign = (if startswith t ''-'' then - 1 else 1);
          ds = (if startswith t ''-'' \<or> startswith t ''+'' then tl t else t);
          digits = length (filter is_digit ds)
      in case digits_int 0 False ds of
           None \<Rightarrow> Inl (Invalid_literal s)
         | Some v \<Rightarrow>
             if 640 < digits \<and> 0 < max_str_digits \<and> max_str_digits < digits
             then Inl Exceeds_digit_limit
             else Inr (sign * v))"

text \<open>
  Modelled from the spec: the module \<open>response\<close> (class \<open>Response\<close>) is imported by
  \<open>server.py\<close> and is not among the sources. The specification gives its contract:
  a response is built from a status line and either inline content or a readable body
  source, with a headers multimap, and \<open>send(connection)\<close> writes it to the
  connection. Sending is recorded as an event; what goes on the wire is not modelled.
\<close>

datatype payload = No_content | Content string | Body_of_file string

record response =
  status :: string
  payload :: payload
  r_headers :: headers

text \<open>What a worker does to the world while it handles one connection, in order.\<close>

datatype event =
    Send response
  | Read_body int string
  | Open_file string
  | Close

definition SERVER_ROOT :: string where
  "SERVER_ROOT = ''www''"

text \<open>\<open>posixpath.join(a, b)\<close>.\<close>

definition join_path :: "string \<Rightarrow> string \<Rightarrow> string" where
  "join_path a b =
     (if startswith b ''/'' then b
      else if a = [] \<or> last a = CHR ''/'' then a @ b
      else a @ ''/'' @ b)"

text \<open>\<open>sep.join(comps)\<close>.\<close>

fun join_str :: "string \<Rightarrow> string list \<Rightarrow> string" where
  "join_str sep [] = []"
| "join_str sep [c] = c"
| "join_str sep (c # cs) = c @ sep @ join_str sep cs"

text \<open>One round of the loop of \<open>posixpath.normpath\<close> over the components.\<close>

definition norm_comp :: "nat \<Rightarrow> string \<Rightarrow> string list \<Rightarrow> string list" where
  "norm_comp initial_slashes cmp new_comps =
     (if cmp = [] \<or> cmp = ''.'' then new_comps
      else if cmp \<noteq> ''..'' \<or> (initial_slashes = 0 \<and> new_comps = [])
                \<or> (new_comps \<noteq> [] \<and> last new_comps = ''..'')
      then new_comps @ [cmp]
      else if new_comps \<noteq> [] then butlast new_comps
      else new_comps)"

text \<open>\<open>posixpath.normpath(path)\<close>.\<close>

definition normpath :: "string \<Rightarrow> string" where
  "normpath p =
     (if p = [] then ''.''
      else
        (let initial_slashes =
               (if startswith p ''/''
                then (if startswith p ''//'' \<and> \<not> startswith p ''///'' then 2 else 1)
                else (0::nat));
             comps = fold (norm_comp initial_slashes) (split_str p (CHR ''/'')) [];
             q = replicate initial_slashes (CHR ''/'') @ join_str ''/'' comps
         in if q = [] then ''.'' else q))"

text \<open>\<open>path.lstrip("/")\<close>.\<close>

definition lstrip_slash :: "string \<Rightarrow> string" where
  "lstrip_slash s = dropWhile (\<lambda>c. c = CHR ''/'') s"

text \<open>What \<open>open(abspath, "rb")\<close> finds: no file, a file with its content, or another failure
  (a directory, a file that may not be read).\<close>

datatype entry = No_file | File string | Unreadable

text \<open>
  \<open>serve_file\<close>, over the file system \<open>fs\<close> and the table \<open>guess_type\<close> of
  \<open>mimetypes\<close>. It returns the events and the exception that leaves it, if any.
\<close>

definition not_found :: response where
  "not_found = \<lparr>status = ''404 Not Found'', payload = Content ''Not Found'', r_headers = Headers\<rparr>"

definition serve_file ::
  "(string \<Rightarrow> entry) \<Rightarrow> (string \<Rightarrow> string option \<times> string option) \<Rightarrow> string
    \<Rightarrow> event list \<times> error option" where
  "serve_file fs guess_type p0 =
     (let p = (if p0 = ''/'' then ''/index.html'' else p0);
          abspath = normpath (join_path SERVER_ROOT (lstrip_slash p))
      in if \<not> startswith abspath SERVER_ROOT then ([Send not_found], None)
         else
           (case fs abspath of
              No_file \<Rightarrow> ([Open_file abspath, Send not_found], None)
            | Unreadable \<Rightarrow> ([Open_file abspath], Some (Os_error abspath))
            | File content \<Rightarrow>
                (let content_type =
                       (case fst (guess_type abspath) of
                          None \<Rightarrow> ''application/octet-stream'' | Some t \<Rightarrow> t);
                     content_type' =
                       (case snd (guess_type abspath) of
                          None \<Rightarrow> content_type | Some enc \<Rightarrow> content_type @ ''; charset='' @ enc)
                 in ([Open_file abspath,
                      Send \<lparr>status = ''200 OK'', payload = Body_of_file content,
                            r_headers = headers_add Headers ''content-type'' content_type'\<rparr>],
                     None))))"

text \<open>The \<open>Content-Length\<close> the worker works with.\<close>

definition content_length_of :: "nat \<Rightarrow> request \<Rightarrow> error + int" where
  "content_length_of max_str_digits req =
     (case int_str max_str_digits (headers_get (headers req) ''content-length'' ''0'') of
        Inl e \<Rightarrow> if is_ValueError e then Inr 0 else Inl e
      | Inr n \<Rightarrow> Inr n)"

text \<open>
  The statements of \<open>handle_client\<close> that follow the parsing, inside the \<open>try\<close>, in an
  interpreter with the bound \<open>max_str_digits\<close>.
\<close>

definition handle_request ::
  "nat \<Rightarrow> (string \<Rightarrow> entry) \<Rightarrow> (string \<Rightarrow> string option \<times> string option) \<Rightarrow> request
    \<Rightarrow> event list \<times> error option" where
  "handle_request max_str_digits fs guess_type req =
     (let ev1 = (if contains (headers_get (headers req) ''expect'' []) ''100-continue''
                 then [Send \<lparr>status = ''100 Continue'', payload = No_content, r_headers = Headers\<rparr>]
                 else [])
      in case content_length_of max_str_digits req of
           Inl e \<Rightarrow> (ev1, Some e)
         | Inr content_length \<Rightarrow>
             (let ev2 = (if content_length \<noteq> 0
                         then [Read_body content_length (fst (read (body req) content_length))]
                         else [])
              in if http_method req \<noteq> ''GET''
                 then (ev1 @ ev2 @
                       [Send \<lparr>status = ''405 Method Not Allowed'',
                              payload = Content ''Method Not Allowed'', r_headers = Headers\<rparr>],
                       None)
                 else (case serve_file fs guess_type (path req) of
                         (evs, exn) \<Rightarrow> (ev1 @ ev2 @ evs, exn))))"

definition bad_request :: response where
  "bad_request = \<lparr>status = ''400 Bad Request'', payload = Content ''Bad Request'', r_headers = Headers\<rparr>"

text \<open>\<open>HTTPWorker.handle_client\<close>: the events of one connection, closed at the end.\<close>

definition handle_client ::
  "nat \<Rightarrow> (string \<Rightarrow> entry) \<Rightarrow> (string \<Rightarrow> string option \<times> string option) \<Rightarrow> sock
    \<Rightarrow> event list" where
  "handle_client max_str_digits fs guess_type client_sock =
     (case from_socket client_sock of
        Inl e \<Rightarrow> [Send bad_request, Close]
      | Inr req \<Rightarrow>
          (case handle_request max_str_digits fs guess_type req of
             (evs, None) \<Rightarrow> evs @ [Close]
           | (evs, Some e) \<Rightarrow> evs @ [Send bad_request, Close]))"

section \<open>Vocabulary of the worker's properties\<close>

text \<open>
  The body length in the specification's words: taken from the \<open>Content-Length\<close>
  header, \<open>0\<close> when the header is absent and when its value is no integer (\<open>int\<close>
  raises on it).
\<close>

definition spec_body_length :: "nat \<Rightarrow> headers \<Rightarrow> int" where
  "spec_body_length max_str_digits h =
     (case find (\<lambda>kv. lower (fst kv) = ''content-length'') h of
        None \<Rightarrow> 0
      | Some kv \<Rightarrow> (case int_str max_str_digits (snd kv) of Inl e \<Rightarrow> 0 | Inr n \<Rightarrow> n))"

text \<open>The calls of the body reader among the events.\<close>

fun is_Read_body :: "event \<Rightarrow> bool" where
  "is_Read_body (Read_body n d) = True"
| "is_Read_body e = False"

text \<open>
  The events that only \<open>serve_file\<close> produces: opening a file, and sending a response
  with status \<open>200 OK\<close> or \<open>404 Not Found\<close>.
\<close>

fun served :: "event \<Rightarrow> bool" where
  "served (Open_file a) = True"
| "served (Send r) = (status r = ''200 OK'' \<or> status r = ''404 Not Found'')"
| "served e = False"


section \<open>Properties of the body reader\<close>

lemma recv_empty_eof: "0 < b \<Longrightarrow> fst (recv s b) = [] \<Longrightarrow> stream (snd (recv s b)) = []"
  by (auto simp: recv_def Let_def split: list.splits)

lemma read_fill_done: "\<not> int (length (b_buff r)) < n \<Longrightarrow> read_fill n r = r"
  by (subst read_fill.simps) simp

lemma read_fill_eof:
  "int (length (b_buff r)) < n \<Longrightarrow> fst (recv (b_sock r) (b_bufsize r)) = [] \<Longrightarrow>
   read_fill n r = r\<lparr>b_sock := snd (recv (b_sock r) (b_bufsize r))\<rparr>"
  by (subst read_fill.simps) (simp add: Let_def)

lemma read_fill_more:
  "int (length (b_buff r)) < n \<Longrightarrow> fst (recv (b_sock r) (b_bufsize r)) \<noteq> [] \<Longrightarrow>
   read_fill n r =
   read_fill n (r\<lparr>b_sock := snd (recv (b_sock r) (b_bufsize r)),
                  b_buff := b_buff r @ fst (recv (b_sock r) (b_bufsize r))\<rparr>)"
  by (subst read_fill.simps) (simp add: Let_def)


lemma read_fill_total:
  "b_buff (read_fill n r) @ stream (b_sock (read_fill n r)) = b_buff r @ stream (b_sock r)"
proof (induction n r rule: read_fill.induct)
  case (1 n r)
  show ?case
  proof (cases "int (length (b_buff r)) < n")
    case False
    then show ?thesis by (simp add: read_fill_done)
  next
    case True
    show ?thesis
    proof (cases "fst (recv (b_sock r) (b_bufsize r)) = []")
      case True
      with \<open>int (length (b_buff r)) < n\<close> recv_concat [of "b_sock r" "b_bufsize r"]
      show ?thesis by (simp add: read_fill_eof)
    next
      case False
      with True "1.IH" [OF True refl False] recv_concat [of "b_sock r" "b_bufsize r"]
      show ?thesis by (simp add: read_fill_more)
    qed
  qed
qed

lemma read_fill_enough:
  "0 < b_bufsize r \<Longrightarrow>
   n \<le> int (length (b_buff (read_fill n r))) \<or> stream (b_sock (read_fill n r)) = []"
proof (induction n r rule: read_fill.induct)
  case (1 n r)
  show ?case
  proof (cases "int (length (b_buff r)) < n")
    case False
    then show ?thesis by (simp add: read_fill_done)
  next
    case True
    show ?thesis
    proof (cases "fst (recv (b_sock r) (b_bufsize r)) = []")
      case True
      with \<open>int (length (b_buff r)) < n\<close> "1.prems" recv_empty_eof [of "b_bufsize r" "b_sock r"]
      show ?thesis by (simp add: read_fill_eof)
    next
      case False
      with True "1.IH" [OF True refl False] "1.prems"
      show ?thesis by (simp add: read_fill_more)
    qed
  qed
qed

lemma read_prefix:
  assumes "0 \<le> n" and "0 < b_bufsize r"
  shows "fst (read r n) = take (nat n) (b_buff r @ stream (b_sock r))"
proof -
  let ?r = "read_fill n r"
  have tot: "b_buff ?r @ stream (b_sock ?r) = b_buff r @ stream (b_sock r)"
    by (rule read_fill_total)
  have "n \<le> int (length (b_buff ?r)) \<or> stream (b_sock ?r) = []"
    using assms(2) by (rule read_fill_enough)
  then have "take (nat n) (b_buff ?r) = take (nat n) (b_buff ?r @ stream (b_sock ?r))"
    by auto
  with assms(1) tot show ?thesis by (simp add: read_def Let_def slice_to_def)
qed



text \<open>
  Claim C10. When the buffer of a reader already holds \<open>n\<close> units or more (as it does
  for \<open>read(0)\<close>), \<open>read(n)\<close> leaves the connection as it was: no call of \<open>recv\<close>, the
  unread bytes unchanged. For \<open>n \<ge> 0\<close> it returns the first \<open>n\<close> buffered units and
  keeps the others in the buffer.
\<close>

theorem read_buffered_untouched:
  assumes "n \<le> int (length (b_buff r))"
  shows "b_sock (snd (read r n)) = b_sock r \<and>
         (0 \<le> n \<longrightarrow> fst (read r n) = take (nat n) (b_buff r) \<and>
                     b_buff (snd (read r n)) = drop (nat n) (b_buff r))"
  using assms by (simp add: read_fill_done read_def Let_def slice_to_def slice_from_def)

theorem read_buffered_untouched_witness:
  "(2::int) \<le> int (length ''abc'') \<and> (0::int) \<le> 2 \<and>
   b_sock (snd (read \<lparr>b_sock = \<lparr>stream = ''xyz'', frags = [0], recvs = 4\<rparr>,
                       b_buff = ''abc'', b_bufsize = 16384\<rparr> 2))
     = \<lparr>stream = ''xyz'', frags = [0], recvs = 4\<rparr> \<and>
   fst (read \<lparr>b_sock = \<lparr>stream = ''xyz'', frags = [0], recvs = 4\<rparr>,
               b_buff = ''abc'', b_bufsize = 16384\<rparr> 2) = ''ab'' \<and>
   b_buff (snd (read \<lparr>b_sock = \<lparr>stream = ''xyz'', frags = [0], recvs = 4\<rparr>,
                       b_buff = ''abc'', b_bufsize = 16384\<rparr> 2)) = ''c'' \<and>
   b_sock (snd (read \<lparr>b_sock = \<lparr>stream = ''xyz'', frags = [0], recvs = 4\<rparr>,
                       b_buff = [], b_bufsize = 16384\<rparr> 0))
     = \<lparr>stream = ''xyz'', frags = [0], recvs = 4\<rparr> \<and>
   fst (read \<lparr>b_sock = \<lparr>stream = ''xyz'', frags = [0], recvs = 4\<rparr>,
               b_buff = [], b_bufsize = 16384\<rparr> 0) = []"
  using read_buffered_untouched
          [of 2 "\<lparr>b_sock = \<lparr>stream = ''xyz'', frags = [0], recvs = 4\<rparr>,
                  b_buff = ''abc'', b_bufsize = 16384\<rparr>"]
        read_buffered_untouched
          [of 0 "\<lparr>b_sock = \<lparr>stream = ''xyz'', frags = [0], recvs = 4\<rparr>,
                  b_buff = [], b_bufsize = 16384\<rparr>"]
  by simp

section \<open>Properties of the request parser\<close>

text \<open>The definitions that evaluate the parser on a given connection.\<close>

lemmas parse_eval = from_socket_def next_line_def iter_lines_def iter_lines_run.simps recv_def
  index_str_def CRLF_def Let_def header_loop.simps add_header_line_def partition_str_def
  headers_add_def Headers_def lstrip_def is_space_def BodyReader_def

lemma lower_Host: "lower ''Host'' = ''host''" and lower_host: "lower ''host'' = ''host''"
  by code_simp+

lemma upper_post: "upper ''post'' = ''POST''" and upper_GET: "upper ''GET'' = ''GET''"
  by code_simp+

text \<open>
  Claim C4. The request \<open>GET /index.html HTTP/1.1\<close>, \<open>Host: x\<close>, empty line, received in
  one read, parses: the method is \<open>GET\<close>, the path \<open>/index.html\<close>, the headers hold the
  one entry added for \<open>Host\<close> with value \<open>x\<close> (which \<open>get\<close> finds under \<open>host\<close>), and
  the body reader starts with an empty buffer.
\<close>

theorem from_socket_example:
  "from_socket \<lparr>stream = ''GET /index.html HTTP/1.1'' @ CRLF @ ''Host: x'' @ CRLF @ CRLF,
                 frags = [], recvs = 0\<rparr>
   = Inr \<lparr>http_method = ''GET'', path = ''/index.html'',
          headers = headers_add Headers ''Host'' ''x'',
          body = BodyReader \<lparr>stream = [], frags = [], recvs = 1\<rparr> []\<rparr> \<and>
   headers_add Headers ''Host'' ''x'' = [(''Host'', ''x'')] \<and>
   headers_get (headers_add Headers ''Host'' ''x'') ''host'' [] = ''x''"
  by (simp add: parse_eval upper_GET headers_get_def lower_Host lower_host)

text \<open>
  Claim C1 (the code departs from it). A well-formed request parses when it arrives in
  one read, and the same bytes arriving one at a time do not parse: the first buffer
  holds no line terminator, \<open>str.index\<close> raises \<open>ValueError\<close>, the handler in
  \<open>iter_lines\<close> names \<open>IndexError\<close>, and the exception leaves \<open>from_socket\<close>.
\<close>

theorem fragmented_request_rejected:
  "from_socket \<lparr>stream = ''GET / HTTP/1.1'' @ CRLF @ ''Host: x'' @ CRLF @ CRLF,
                 frags = [], recvs = 0\<rparr>
   = Inr \<lparr>http_method = ''GET'', path = ''/'', headers = [(''Host'', ''x'')],
          body = BodyReader \<lparr>stream = [], frags = [], recvs = 1\<rparr> []\<rparr> \<and>
   from_socket \<lparr>stream = ''GET / HTTP/1.1'' @ CRLF @ ''Host: x'' @ CRLF @ CRLF,
                 frags = [0, 0, 0, 0, 0, 0, 0, 0, 0, 0, 0, 0, 0, 0, 0, 0, 0, 0, 0, 0, 0, 0, 0, 0, 0, 0], recvs = 0\<rparr>
   = Inl Substring_not_found"
  by (simp add: parse_eval upper_GET)

text \<open>
  Claim C2 (the code departs from it). A header line without a colon raises nothing:
  \<open>str.partition\<close> returns the whole line as the name and an empty value, and the
  line is added to the headers.
\<close>

theorem colonless_header_accepted:
  "from_socket \<lparr>stream = ''GET / HTTP/1.1'' @ CRLF @ ''BadHeader'' @ CRLF @ CRLF,
                 frags = [], recvs = 0\<rparr>
   = Inr \<lparr>http_method = ''GET'', path = ''/'', headers = [(''BadHeader'', [])],
          body = BodyReader \<lparr>stream = [], frags = [], recvs = 1\<rparr> []\<rparr>"
  by (simp add: parse_eval upper_GET)

text \<open>
  Claim C6 (the code departs from it). Besides its two returns, the generator ends a
  third way: on a buffer that holds no line terminator the exception of \<open>str.index\<close>
  leaves it.
\<close>

theorem iter_lines_raises:
  "next_line (iter_lines \<lparr>stream = ''abc'', frags = [], recvs = 0\<rparr>)
   = (Raise Substring_not_found,
      \<lparr>g_sock = \<lparr>stream = [], frags = [], recvs = 1\<rparr>, g_bufsize = 16384,
        g_buff = ''abc'', g_started = True\<rparr>)"
  by (simp add: parse_eval upper_GET)

text \<open>
  Claim C5 (the code departs from it). A request line that splits into fewer or more
  than three tokens fails with the malformed-request-line error that carries the line,
  as for \<open>GET /\<close>. A request line of three tokens does not make \<open>from_socket\<close> succeed:
  when the connection ends after the request line, the generator is resumed on an
  empty buffer, \<open>str.index\<close> raises \<open>ValueError\<close>, the handler in \<open>iter_lines\<close> names
  \<open>IndexError\<close>, and the exception leaves \<open>from_socket\<close>.
\<close>

theorem three_tokens_rejected:
  "next_line (iter_lines \<lparr>stream = ''GET / HTTP/1.1'' @ CRLF, frags = [], recvs = 0\<rparr>)
     = (Yield ''GET / HTTP/1.1'',
        \<lparr>g_sock = \<lparr>stream = [], frags = [], recvs = 1\<rparr>, g_bufsize = 16384,
          g_buff = [], g_started = True\<rparr>) \<and>
   split_str ''GET / HTTP/1.1'' (CHR '' '') = [''GET'', ''/'', ''HTTP/1.1''] \<and>
   from_socket \<lparr>stream = ''GET / HTTP/1.1'' @ CRLF, frags = [], recvs = 0\<rparr>
     = Inl Substring_not_found \<and>
   split_str ''GET /'' (CHR '' '') = [''GET'', ''/''] \<and>
   from_socket \<lparr>stream = ''GET /'' @ CRLF @ CRLF, frags = [], recvs = 0\<rparr>
     = Inl (Malformed_request_line ''GET /'')"
  by (simp add: parse_eval upper_GET)

section \<open>Properties of the worker\<close>

lemma lower_content_length: "lower ''content-length'' = ''content-length''"
  by code_simp

lemma int_str_zero: "int_str m ''0'' = Inr 0"
  by (simp add: int_str_def strip_c_space_def is_c_space_def is_digit_def digit_val_def Let_def)

lemma int_str_error: "int_str m v = Inl e \<Longrightarrow> is_ValueError e"
  by (auto simp: int_str_def Let_def split: option.splits if_splits)

lemma content_length_spec: "content_length_of m req = Inr (spec_body_length m (headers req))"
proof (cases "find (\<lambda>kv. lower (fst kv) = ''content-length'') (headers req)")
  case None
  then show ?thesis
    by (simp add: content_length_of_def spec_body_length_def headers_get_def
          lower_content_length int_str_zero)
next
  case (Some kv)
  show ?thesis
  proof (cases "int_str m (snd kv)")
    case (Inl e)
    with Some int_str_error [OF Inl] show ?thesis
      by (simp add: content_length_of_def spec_body_length_def headers_get_def
            lower_content_length)
  next
    case (Inr n)
    with Some show ?thesis
      by (simp add: content_length_of_def spec_body_length_def headers_get_def
            lower_content_length)
  qed
qed

lemma serve_file_served: "e \<in> set (fst (serve_file fs gt p)) \<Longrightarrow> served e"
  by (auto simp: serve_file_def Let_def not_found_def split: if_splits entry.splits)


lemma serve_file_no_read: "filter is_Read_body (fst (serve_file fs gt p)) = []"
  by (auto simp: serve_file_def Let_def split: entry.splits)

lemma handle_request_reads:
  "filter is_Read_body (fst (handle_request m fs gt req)) =
     (if spec_body_length m (headers req) = 0 then []
      else [Read_body (spec_body_length m (headers req))
              (fst (read (body req) (spec_body_length m (headers req))))])"
  using serve_file_no_read [of fs gt "path req"]
  by (cases "serve_file fs gt (path req)")
     (simp add: handle_request_def content_length_spec Let_def)

lemma from_socket_bufsize: "from_socket s = Inr req \<Longrightarrow> b_bufsize (body req) = 16384"
  by (auto simp: from_socket_def BodyReader_def split: prod.splits outcome.splits sum.splits
        if_splits)

lemma length_three: "spec_body_length 4300 [(''Content-Length'', ''3'')] = 3"
  by code_simp

lemma length_ten: "spec_body_length 4300 [(''Content-Length'', ''10'')] = 10"
  by code_simp

lemma length_unparsable: "spec_body_length 4300 [(''Content-Length'', ''abc'')] = 0"
  by code_simp

lemma read_short:
  "fst (read (BodyReader \<lparr>stream = [], frags = [], recvs = k\<rparr> ''abc'') 10) = ''abc''"
  by (simp add: read_def BodyReader_def read_fill_eof recv_def slice_to_def Let_def)

text \<open>
  Claim C7, as stated, fails. With \<open>Content-Length: 10\<close> and a body of three units before
  the end of the stream, the worker calls \<open>read(10)\<close> and the call returns the three
  units there are, not ten.
\<close>

theorem short_body_read:
  "from_socket \<lparr>stream = ''post /x HTTP/1.1'' @ CRLF @ ''Content-Length: 10'' @ CRLF @ CRLF
                            @ ''abc'', frags = [], recvs = 0\<rparr>
     = Inr \<lparr>http_method = ''POST'', path = ''/x'', headers = [(''Content-Length'', ''10'')],
            body = BodyReader \<lparr>stream = [], frags = [], recvs = 1\<rparr> ''abc''\<rparr> \<and>
   content_length_of 4300
     \<lparr>http_method = ''POST'', path = ''/x'', headers = [(''Content-Length'', ''10'')],
       body = BodyReader \<lparr>stream = [], frags = [], recvs = 1\<rparr> ''abc''\<rparr> = Inr 10 \<and>
   filter is_Read_body
     (handle_client 4300 (\<lambda>p. No_file) (\<lambda>p. (None, None))
        \<lparr>stream = ''post /x HTTP/1.1'' @ CRLF @ ''Content-Length: 10'' @ CRLF @ CRLF
                    @ ''abc'', frags = [], recvs = 0\<rparr>)
     = [Read_body 10 ''abc''] \<and>
   int (length ''abc'') \<noteq> 10"
proof -
  have p: "from_socket \<lparr>stream = ''post /x HTTP/1.1'' @ CRLF @ ''Content-Length: 10'' @ CRLF @ CRLF
                            @ ''abc'', frags = [], recvs = 0\<rparr>
     = Inr \<lparr>http_method = ''POST'', path = ''/x'', headers = [(''Content-Length'', ''10'')],
            body = BodyReader \<lparr>stream = [], frags = [], recvs = 1\<rparr> ''abc''\<rparr>"
    by (simp add: parse_eval upper_post)
  have c: "content_length_of 4300
     \<lparr>http_method = ''POST'', path = ''/x'', headers = [(''Content-Length'', ''10'')],
       body = BodyReader \<lparr>stream = [], frags = [], recvs = 1\<rparr> ''abc''\<rparr> = Inr 10"
    by (simp add: content_length_spec length_ten)
  obtain evs exn where h: "handle_request 4300 (\<lambda>p. No_file) (\<lambda>p. (None, None))
     \<lparr>http_method = ''POST'', path = ''/x'', headers = [(''Content-Length'', ''10'')],
       body = BodyReader \<lparr>stream = [], frags = [], recvs = 1\<rparr> ''abc''\<rparr> = (evs, exn)"
    by (cases "handle_request 4300 (\<lambda>p. No_file) (\<lambda>p. (None, None))
     \<lparr>http_method = ''POST'', path = ''/x'', headers = [(''Content-Length'', ''10'')],
       body = BodyReader \<lparr>stream = [], frags = [], recvs = 1\<rparr> ''abc''\<rparr>")
  from handle_request_reads [of 4300 "\<lambda>p. No_file" "\<lambda>p. (None, None)"
     "\<lparr>http_method = ''POST'', path = ''/x'', headers = [(''Content-Length'', ''10'')],
       body = BodyReader \<lparr>stream = [], frags = [], recvs = 1\<rparr> ''abc''\<rparr>"] h
  have "filter is_Read_body evs = [Read_body 10 ''abc'']"
    by (simp add: length_ten read_short)
  with p h have "filter is_Read_body
     (handle_client 4300 (\<lambda>p. No_file) (\<lambda>p. (None, None))
        \<lparr>stream = ''post /x HTTP/1.1'' @ CRLF @ ''Content-Length: 10'' @ CRLF @ CRLF
                    @ ''abc'', frags = [], recvs = 0\<rparr>)
     = [Read_body 10 ''abc'']"
    by (cases exn) (simp_all add: handle_client_def)
  with p c show ?thesis by simp
qed

text \<open>
  Claim C7, amended. For a request the worker has parsed from a connection that delivers
  ASCII bytes, the body length is the value of the \<open>Content-Length\<close> header, and \<open>0\<close>
  when the header is absent or \<open>int\<close> raises on its value. When the length is not
  zero the worker calls \<open>read\<close> on the body reader of the request once, with that
  length; for a positive length the call returns the first units of the body, as many
  as the length says when the body has them before the end of the stream, and all there
  are otherwise. When the length is zero the body reader is not called.
\<close>

theorem worker_body_length:
  assumes "from_socket s = Inr req" and "is_ascii (stream s)"
  shows "content_length_of m req = Inr (spec_body_length m (headers req)) \<and>
         filter is_Read_body (handle_client m fs gt s) =
           (if spec_body_length m (headers req) = 0 then []
            else [Read_body (spec_body_length m (headers req))
                    (fst (read (body req) (spec_body_length m (headers req))))]) \<and>
         (0 < spec_body_length m (headers req) \<longrightarrow>
            fst (read (body req) (spec_body_length m (headers req))) =
              take (nat (spec_body_length m (headers req)))
                (b_buff (body req) @ stream (b_sock (body req))))"
proof -
  obtain evs exn where h: "handle_request m fs gt req = (evs, exn)"
    by (cases "handle_request m fs gt req")
  with assms(1) have "filter is_Read_body (handle_client m fs gt s) = filter is_Read_body evs"
    by (cases exn) (simp_all add: handle_client_def)
  with handle_request_reads [of m fs gt req] h
  have ev: "filter is_Read_body (handle_client m fs gt s) =
           (if spec_body_length m (headers req) = 0 then []
            else [Read_body (spec_body_length m (headers req))
                    (fst (read (body req) (spec_body_length m (headers req))))])"
    by simp
  from from_socket_bufsize [OF assms(1)] have b: "0 < b_bufsize (body req)" by simp
  have "0 < spec_body_length m (headers req) \<longrightarrow>
            fst (read (body req) (spec_body_length m (headers req))) =
              take (nat (spec_body_length m (headers req)))
                (b_buff (body req) @ stream (b_sock (body req)))"
    using read_prefix [OF _ b] by simp
  with ev content_length_spec [of m req] show ?thesis by blast
qed

theorem worker_body_length_witness:
  "from_socket \<lparr>stream = ''post /x HTTP/1.1'' @ CRLF @ ''Content-Length: 3'' @ CRLF @ CRLF
                            @ ''abcdef'', frags = [], recvs = 0\<rparr>
     = Inr \<lparr>http_method = ''POST'', path = ''/x'', headers = [(''Content-Length'', ''3'')],
            body = BodyReader \<lparr>stream = [], frags = [], recvs = 1\<rparr> ''abcdef''\<rparr> \<and>
   is_ascii (''post /x HTTP/1.1'' @ CRLF @ ''Content-Length: 3'' @ CRLF @ CRLF @ ''abcdef'') \<and>
   filter is_Read_body
     (handle_client 4300 (\<lambda>p. No_file) (\<lambda>p. (None, None))
        \<lparr>stream = ''post /x HTTP/1.1'' @ CRLF @ ''Content-Length: 3'' @ CRLF @ CRLF
                    @ ''abcdef'', frags = [], recvs = 0\<rparr>)
     = [Read_body 3 ''abc''] \<and>
   from_socket \<lparr>stream = ''post /x HTTP/1.1'' @ CRLF @ ''Content-Length: abc'' @ CRLF @ CRLF
                            @ ''abcdef'', frags = [], recvs = 0\<rparr>
     = Inr \<lparr>http_method = ''POST'', path = ''/x'', headers = [(''Content-Length'', ''abc'')],
            body = BodyReader \<lparr>stream = [], frags = [], recvs = 1\<rparr> ''abcdef''\<rparr> \<and>
   is_ascii (''post /x HTTP/1.1'' @ CRLF @ ''Content-Length: abc'' @ CRLF @ CRLF @ ''abcdef'') \<and>
   filter is_Read_body
     (handle_client 4300 (\<lambda>p. No_file) (\<lambda>p. (None, None))
        \<lparr>stream = ''post /x HTTP/1.1'' @ CRLF @ ''Content-Length: abc'' @ CRLF @ CRLF
                    @ ''abcdef'', frags = [], recvs = 0\<rparr>)
     = []"
proof -
  have p1: "from_socket \<lparr>stream = ''post /x HTTP/1.1'' @ CRLF @ ''Content-Length: 3'' @ CRLF @ CRLF
                            @ ''abcdef'', frags = [], recvs = 0\<rparr>
     = Inr \<lparr>http_method = ''POST'', path = ''/x'', headers = [(''Content-Length'', ''3'')],
            body = BodyReader \<lparr>stream = [], frags = [], recvs = 1\<rparr> ''abcdef''\<rparr>"
    by (simp add: parse_eval upper_post)
  have p2: "from_socket \<lparr>stream = ''post /x HTTP/1.1'' @ CRLF @ ''Content-Length: abc'' @ CRLF @ CRLF
                            @ ''abcdef'', frags = [], recvs = 0\<rparr>
     = Inr \<lparr>http_method = ''POST'', path = ''/x'', headers = [(''Content-Length'', ''abc'')],
            body = BodyReader \<lparr>stream = [], frags = [], recvs = 1\<rparr> ''abcdef''\<rparr>"
    by (simp add: parse_eval upper_post)
  have a1: "is_ascii (stream \<lparr>stream = ''post /x HTTP/1.1'' @ CRLF @ ''Content-Length: 3'' @ CRLF
                            @ CRLF @ ''abcdef'', frags = [], recvs = 0\<rparr>)"
    by (simp add: CRLF_def)
  have a2: "is_ascii (stream \<lparr>stream = ''post /x HTTP/1.1'' @ CRLF @ ''Content-Length: abc'' @ CRLF
                            @ CRLF @ ''abcdef'', frags = [], recvs = 0\<rparr>)"
    by (simp add: CRLF_def)
  from worker_body_length [OF p1 a1, of 4300 "\<lambda>p. No_file" "\<lambda>p. (None, None)"] length_three
  have 1: "filter is_Read_body
     (handle_client 4300 (\<lambda>p. No_file) (\<lambda>p. (None, None))
        \<lparr>stream = ''post /x HTTP/1.1'' @ CRLF @ ''Content-Length: 3'' @ CRLF @ CRLF
                    @ ''abcdef'', frags = [], recvs = 0\<rparr>)
     = [Read_body 3 ''abc'']" by (simp add: BodyReader_def)
  from worker_body_length [OF p2 a2, of 4300 "\<lambda>p. No_file" "\<lambda>p. (None, None)"] length_unparsable
  have 2: "filter is_Read_body
     (handle_client 4300 (\<lambda>p. No_file) (\<lambda>p. (None, None))
        \<lparr>stream = ''post /x HTTP/1.1'' @ CRLF @ ''Content-Length: abc'' @ CRLF @ CRLF
                    @ ''abcdef'', frags = [], recvs = 0\<rparr>)
     = []" by simp
  from a1 a2 have "is_ascii (''post /x HTTP/1.1'' @ CRLF @ ''Content-Length: 3'' @ CRLF @ CRLF @ ''abcdef'')"
    and "is_ascii (''post /x HTTP/1.1'' @ CRLF @ ''Content-Length: abc'' @ CRLF @ CRLF @ ''abcdef'')"
    by simp_all
  with p1 1 p2 2 show ?thesis by blast
qed



text \<open>Where the path \<open>/\<close> leads before it is replaced by the index page.\<close>

lemma root_slash: "normpath (join_path SERVER_ROOT (lstrip_slash ''/'')) = ''www''"
  by (simp add: normpath_def join_path_def SERVER_ROOT_def lstrip_slash_def Let_def norm_comp_def)

text \<open>
  Claim C9. When the normalised join of \<open>www\<close> with the path, stripped of its leading
  slashes, does not start with \<open>www\<close>, \<open>serve_file\<close> sends \<open>404 Not Found\<close> and does
  nothing else; whenever it opens a file, the file is the normalised join and starts
  with \<open>www\<close>.
\<close>

theorem serve_file_guard:
  "(\<not> startswith (normpath (join_path SERVER_ROOT (lstrip_slash p))) SERVER_ROOT \<longrightarrow>
      serve_file fs gt p = ([Send not_found], None)) \<and>
   (\<forall>a. Open_file a \<in> set (fst (serve_file fs gt p)) \<longrightarrow>
      a = normpath (join_path SERVER_ROOT
            (lstrip_slash (if p = ''/'' then ''/index.html'' else p))) \<and>
      startswith a SERVER_ROOT \<and>
      startswith (normpath (join_path SERVER_ROOT (lstrip_slash p))) SERVER_ROOT)"
proof (cases "p = ''/''")
  case True
  have "startswith (normpath (join_path SERVER_ROOT (lstrip_slash ''/''))) SERVER_ROOT"
    by (simp add: root_slash) (simp add: SERVER_ROOT_def)
  with True show ?thesis
    by (auto simp: serve_file_def Let_def not_found_def split: if_splits entry.splits)
next
  case False
  then show ?thesis
    by (auto simp: serve_file_def Let_def not_found_def split: if_splits entry.splits)
qed

theorem serve_file_guard_witness:
  "\<not> startswith (normpath (join_path SERVER_ROOT (lstrip_slash ''/../etc/passwd''))) SERVER_ROOT \<and>
   serve_file (\<lambda>p. File ''secret'') (\<lambda>p. (None, None)) ''/../etc/passwd''
     = ([Send not_found], None) \<and>
   Open_file ''www/a.txt''
     \<in> set (fst (serve_file (\<lambda>p. File ''secret'') (\<lambda>p. (None, None)) ''/a.txt'')) \<and>
   startswith ''www/a.txt'' SERVER_ROOT"
proof -
  have n1: "normpath (join_path SERVER_ROOT (lstrip_slash ''/../etc/passwd'')) = ''etc/passwd''"
    by (simp add: normpath_def join_path_def SERVER_ROOT_def lstrip_slash_def Let_def
          norm_comp_def)
  have n2: "normpath (join_path SERVER_ROOT (lstrip_slash ''/a.txt'')) = ''www/a.txt''"
    by (simp add: normpath_def join_path_def SERVER_ROOT_def lstrip_slash_def Let_def
          norm_comp_def)
  have h1: "\<not> startswith (normpath (join_path SERVER_ROOT (lstrip_slash ''/../etc/passwd''))) SERVER_ROOT"
    by (simp add: n1) (simp add: SERVER_ROOT_def)
  have o: "Open_file ''www/a.txt''
     \<in> set (fst (serve_file (\<lambda>p. File ''secret'') (\<lambda>p. (None, None)) ''/a.txt''))"
    by (simp add: serve_file_def n2 Let_def) (simp add: SERVER_ROOT_def)
  from serve_file_guard [of "''/../etc/passwd''" "\<lambda>p. File ''secret''" "\<lambda>p. (None, None)"] h1
  have 1: "serve_file (\<lambda>p. File ''secret'') (\<lambda>p. (None, None)) ''/../etc/passwd''
     = ([Send not_found], None)" by blast
  from serve_file_guard [of "''/a.txt''" "\<lambda>p. File ''secret''" "\<lambda>p. (None, None)"] o
  have 2: "startswith ''www/a.txt'' SERVER_ROOT" by blast
  from h1 1 o 2 show ?thesis by blast
qed

end
